theory Spec2Isabelle
  imports Main "HOL-Library.Sublist"
begin

section \<open>Python values used by invoice_to_csv.py\<close>

text \<open>
  Python strings are modelled as \<open>string\<close> (lists of 8-bit characters). The character
  classes below (white space, line boundaries, letter case) are Python's, restricted to
  ASCII; a character above 127 is neither white space nor a line boundary and has no case.
  An exception raised by the interpreter is a value \<open>Inl e\<close> of the result type.
\<close>

datatype error = IndexError | TypeError | EOFError

subsection \<open>\<open>str.find\<close> and slicing\<close>

text \<open>\<open>s.find(sub)\<close>: the lowest index at which \<open>sub\<close> occurs in \<open>s\<close>, or \<open>-1\<close>.\<close>

fun find_str :: "string \<Rightarrow> string \<Rightarrow> int" where
  "find_str [] sub = (if sub = [] then 0 else - 1)"
| "find_str (c # cs) sub =
     (if prefix sub (c # cs) then 0
      else (let r = find_str cs sub in if r < 0 then - 1 else r + 1))"

text \<open>
  A slice bound \<open>i\<close> on a sequence of length \<open>n\<close>: a negative bound counts from the
  end, and every bound is clamped into \<open>0..n\<close>.
\<close>

definition slice_bound :: "nat \<Rightarrow> int \<Rightarrow> nat" where
  "slice_bound n i = (if i < 0 then nat (max (i + int n) 0) else min (nat i) n)"

text \<open>\<open>s[a:b]\<close>, \<open>s[a:]\<close> and \<open>s[:b]\<close>.\<close>

definition slice :: "'a list \<Rightarrow> int \<Rightarrow> int \<Rightarrow> 'a list" where
  "slice s a b =
     (let lo = slice_bound (length s) a; hi = slice_bound (length s) b
      in take (hi - lo) (drop lo s))"

definition slice_from :: "'a list \<Rightarrow> int \<Rightarrow> 'a list" where
  "slice_from s a = drop (slice_bound (length s) a) s"

definition slice_to :: "'a list \<Rightarrow> int \<Rightarrow> 'a list" where
  "slice_to s b = take (slice_bound (length s) b) s"

text \<open>\<open>xs[i]\<close> for a non-negative index \<open>i\<close>: IndexError out of range.\<close>

definition index :: "'a list \<Rightarrow> nat \<Rightarrow> error + 'a" where
  "index xs i = (if i < length xs then Inr (xs ! i) else Inl IndexError)"

subsection \<open>\<open>str.strip\<close>, \<open>str.split\<close>, \<open>str.splitlines\<close>, \<open>str.replace\<close>, \<open>str.join\<close>\<close>

definition isspace :: "char \<Rightarrow> bool" where
  "isspace c \<longleftrightarrow> c \<in> set [CHR 0x09, CHR 0x0A, CHR 0x0B, CHR 0x0C, CHR 0x0D,
                          CHR 0x1C, CHR 0x1D, CHR 0x1E, CHR 0x1F, CHR 0x20]"

definition lstrip :: "string \<Rightarrow> string" where
  "lstrip s = dropWhile isspace s"

definition rstrip :: "string \<Rightarrow> string" where
  "rstrip s = rev (dropWhile isspace (rev s))"

definition strip :: "string \<Rightarrow> string" where
  "strip s = rstrip (lstrip s)"

text \<open>
  \<open>s.split(sep)\<close> for a non-empty separator (every separator in the source is a non-empty
  literal): the pieces between the non-overlapping occurrences of \<open>sep\<close>, scanned from the
  left; \<open>cur\<close> is the piece being read.
\<close>

fun split_from :: "string \<Rightarrow> string \<Rightarrow> string \<Rightarrow> string list" where
  "split_from sep cur [] = [cur]"
| "split_from sep cur (c # cs) =
     (if prefix sep (c # cs) then cur # split_from sep [] (drop (length sep - 1) cs)
      else split_from sep (cur @ [c]) cs)"

definition split_str :: "string \<Rightarrow> string \<Rightarrow> string list" where
  "split_str s sep = split_from sep [] s"

definition is_linebreak :: "char \<Rightarrow> bool" where
  "is_linebreak c \<longleftrightarrow> c \<in> set [CHR 0x0A, CHR 0x0D, CHR 0x0B, CHR 0x0C, CHR 0x1C, CHR 0x1D, CHR 0x1E]"

text \<open>
  \<open>s.splitlines()\<close>: the lines of \<open>s\<close> without their line boundaries; \<open>\r\n\<close> is one
  boundary, and a boundary at the very end opens no further line.
\<close>

fun splitlines_from :: "string \<Rightarrow> string \<Rightarrow> string list" where
  "splitlines_from cur [] = (if cur = [] then [] else [cur])"
| "splitlines_from cur [c] = (if is_linebreak c then [cur] else [cur @ [c]])"
| "splitlines_from cur (c # d # cs) =
     (if c = CHR 0x0D \<and> d = CHR 0x0A then cur # splitlines_from [] cs
      else if is_linebreak c then cur # splitlines_from [] (d # cs)
      else splitlines_from (cur @ [c]) (d # cs))"

definition splitlines :: "string \<Rightarrow> string list" where
  "splitlines s = splitlines_from [] s"

text \<open>\<open>s.replace(old, new)\<close> for a non-empty \<open>old\<close>.\<close>

fun replace_str :: "string \<Rightarrow> string \<Rightarrow> string \<Rightarrow> string" where
  "replace_str [] old new = []"
| "replace_str (c # cs) old new =
     (if prefix old (c # cs) then new @ replace_str (drop (length old - 1) cs) old new
      else c # replace_str cs old new)"

text \<open>\<open>sep.join(xs)\<close>.\<close>

fun join_str :: "string \<Rightarrow> string list \<Rightarrow> string" where
  "join_str sep [] = []"
| "join_str sep [x] = x"
| "join_str sep (x # y # ys) = x @ sep @ join_str sep (y # ys)"

subsection \<open>\<open>str.lower\<close> and \<open>str.capitalize\<close>\<close>

definition ascii_uppercase :: string where
  "ascii_uppercase = ''ABCDEFGHIJKLMNOPQRSTUVWXYZ''"

definition ascii_lowercase :: string where
  "ascii_lowercase = ''abcdefghijklmnopqrstuvwxyz''"

definition lower_char :: "char \<Rightarrow> char" where
  "lower_char c =
     (case map_of (zip ascii_uppercase ascii_lowercase) c of Some d \<Rightarrow> d | None \<Rightarrow> c)"

definition upper_char :: "char \<Rightarrow> char" where
  "upper_char c =
     (case map_of (zip ascii_lowercase ascii_uppercase) c of Some d \<Rightarrow> d | None \<Rightarrow> c)"

definition lower :: "string \<Rightarrow> string" where
  "lower s = map lower_char s"

definition capitalize :: "string \<Rightarrow> string" where
  "capitalize s = (case s of [] \<Rightarrow> [] | c # cs \<Rightarrow> upper_char c # map lower_char cs)"

subsection \<open>\<open>list.pop\<close> and \<open>functools.reduce\<close>\<close>

text \<open>
  \<open>xs.pop(1)\<close>: the element at index 1 and the list without it; IndexError
  (``pop index out of range'') when the list has fewer than two elements.
\<close>

definition pop1 :: "'a list \<Rightarrow> error + ('a \<times> 'a list)" where
  "pop1 xs = (case xs of x # y # ys \<Rightarrow> Inr (y, x # ys) | _ \<Rightarrow> Inl IndexError)"

text \<open>
  \<open>reduce(lambda x, y: x + y, xss)\<close> with no initial value: TypeError on an empty
  list, else the elements added from the left.
\<close>

definition reduce_add :: "'a list list \<Rightarrow> error + 'a list" where
  "reduce_add xss = (case xss of [] \<Rightarrow> Inl TypeError | x # xs \<Rightarrow> Inr (foldl (@) x xs))"

text \<open>Sequencing of steps that may raise: the first exception ends the computation.\<close>

definition bind :: "error + 'a \<Rightarrow> ('a \<Rightarrow> error + 'b) \<Rightarrow> error + 'b" where
  "bind m f = (case m of Inl e \<Rightarrow> Inl e | Inr x \<Rightarrow> f x)"

subsection \<open>Terminal input and output\<close>

text \<open>
  The terminal is a state: the lines still to be read by \<open>input\<close>, and the chunks written
  so far. \<open>input(prompt)\<close> writes the prompt and takes the next line, EOFError when there
  is none; \<open>print(a, b)\<close> writes its arguments separated by a space, then a newline.
\<close>

record io =
  stdin :: "string list"
  stdout :: "string list"

definition input_py :: "string \<Rightarrow> io \<Rightarrow> error + (string \<times> io)" where
  "input_py prompt s =
     (case stdin s of
        [] \<Rightarrow> Inl EOFError
      | l # ls \<Rightarrow> Inr (l, s\<lparr>stdin := ls, stdout := stdout s @ [prompt]\<rparr>))"

definition print_py :: "string list \<Rightarrow> io \<Rightarrow> io" where
  "print_py args s = s\<lparr>stdout := stdout s @ [join_str '' '' args @ [CHR 0x0A]]\<rparr>"

section \<open>The program\<close>

subsection \<open>Category of an asset\<close>

definition COMMON_CATEGORIES :: "string list" where
  "COMMON_CATEGORIES =
     [''Laptop'', ''Desktop'', ''Access Point'', ''Smartphone'', ''Router'', ''Switch'']"

text \<open>
  The loop of \<open>check_for_common_categories\<close>: \<open>found_category\<close> is overwritten by every
  category whose lower-cased text is found in the lower-cased name.
\<close>

fun categories_loop :: "string \<Rightarrow> string list \<Rightarrow> string option \<Rightarrow> string option" where
  "categories_loop name [] found_category = found_category"
| "categories_loop name (category # rest) found_category =
     categories_loop name rest
       (if find_str (lower name) (lower category) \<ge> 0 then Some category else found_category)"

definition check_for_common_categories :: "string \<Rightarrow> string option" where
  "check_for_common_categories name = categories_loop name COMMON_CATEGORIES None"

text \<open>
  \<open>get_category(model_no, name, model)\<close>: the common category found in \<open>name\<close>, else the
  capitalized answer of the operator, who is shown the three arguments.
\<close>

definition get_category :: "string \<Rightarrow> string \<Rightarrow> string \<Rightarrow> io \<Rightarrow> error + (string \<times> io)" where
  "get_category model_no name model s =
     (case check_for_common_categories name of
        Some category \<Rightarrow> Inr (category, s)
      | None \<Rightarrow>
          (let s = print_py [CHR 0x0A # ''Model Number:'', model_no] s;
               s = print_py [''Model:'', model] s;
               s = print_py [''Name:'', name] s
           in bind (input_py ''What is the category for this item? '' s)
                (\<lambda>(answer, s). Inr (capitalize answer, s))))"

subsection \<open>Locating text on the page\<close>

text \<open>
  \<open>get_next_item(text, word_before)\<close>: what follows the first \<open>word_before\<close>, stripped, up
  to the first space and then up to the first newline.
\<close>

definition get_next_item :: "string \<Rightarrow> string \<Rightarrow> error + string" where
  "get_next_item text word_before =
     bind (index (split_str
                    (strip (slice_from text (find_str text word_before + int (length word_before))))
                    '' '') 0)
       (\<lambda>w. index (split_str w [CHR 0x0A]) 0)"

definition START_STRING :: string where
  "START_STRING = ''Billable  Products & Other Charges''"

definition END_STRING :: string where
  "END_STRING = ''Total''"

text \<open>Lines 112 to 117 of \<open>parse_pdf\<close>: the item block between the two anchors.\<close>

definition locate_item :: "string \<Rightarrow> string" where
  "locate_item page_text =
     (let start_i = find_str page_text START_STRING + int (length START_STRING);
          end_i = find_str page_text END_STRING
      in strip (slice page_text start_i end_i))"

subsection \<open>Extracting the fields of the item block\<close>

text \<open>
  Lines 122 to 126 of \<open>parse_pdf\<close>: the text before ``Serial'', cut at double spaces, empty
  pieces dropped, every piece cut into its lines.
\<close>

definition token_segments :: "string \<Rightarrow> string list list" where
  "token_segments info =
     (let info = slice_to info (find_str info ''Serial'');
          info_list = filter (\<lambda>x. x \<noteq> []) (split_str info ''  '')
      in map splitlines info_list)"

text \<open>Lines 134 to 136: the price without commas and dollar signs, stripped.\<close>

definition normalize_price :: "string \<Rightarrow> string" where
  "normalize_price price =
     (let price = replace_str price '','' [];
          price = replace_str price ''$'' []
      in strip price)"

text \<open>
  Lines 118 to 143 of \<open>parse_pdf\<close>, in the order of evaluation; the result is
  \<open>(model_no, name, model, price, serial_nos)\<close>.
\<close>

definition extract_fields :: "string \<Rightarrow> error + (string \<times> string \<times> string \<times> string \<times> string list)" where
  "extract_fields item =
     bind (index (split_str item '': '') 0) (\<lambda>model_no.
     bind (index (split_str item '': '') 1) (\<lambda>info.
     bind (reduce_add (token_segments info)) (\<lambda>info_list.
     bind (pop1 info_list) (\<lambda>(quantity, info_list).
     bind (pop1 info_list) (\<lambda>(price, info_list).
     let price = normalize_price price in
     bind (pop1 info_list) (\<lambda>(total, info_list).
     bind (index info_list 0) (\<lambda>first.
     bind (index (split_str first '', '') 0) (\<lambda>model.
     let name = replace_str (join_str '' '' info_list) '','' [];
         parts = split_str item '': ''
     in bind (index parts (length parts - 1)) (\<lambda>serials.
        Inr (model_no, name, model, price, map strip (split_str serials '','')))))))))))"

text \<open>Lines 147 to 149: from MM-DD-YYYY to YYYY-MM-DD.\<close>

definition normalize_date :: "string \<Rightarrow> error + string" where
  "normalize_date date =
     (let date = replace_str date ''/'' ''-''
      in bind (index date 5) (\<lambda>c. Inr (slice_from date 6 @ [c] @ slice_to date 5)))"

subsection \<open>The asset and its rows\<close>

record asset =
  model_no :: string
  name :: string
  model :: string
  price :: string
  serial_nos :: "string list"
  location :: string
  date :: string
  order_no :: string
  category :: string
  requestable :: string
  last_audit_date :: string

text \<open>The constructor \<open>Asset.__init__\<close>; its arguments are named after the fields.\<close>

definition Asset :: "string \<Rightarrow> string \<Rightarrow> string \<Rightarrow> string \<Rightarrow> string list \<Rightarrow> string \<Rightarrow> string \<Rightarrow> string \<Rightarrow> asset" where
  "Asset a_model_no a_name a_model a_price a_serial_nos a_date a_order_no a_category =
     \<lparr>model_no = a_model_no, name = a_name, model = a_model, price = a_price,
      serial_nos = a_serial_nos, location = ''Naples Office'', date = a_date,
      order_no = a_order_no, category = a_category, requestable = ''true'',
      last_audit_date = a_date\<rparr>"

text \<open>The loop of \<open>Asset.to_string\<close>: one line per serial number, added to \<open>assets_str\<close>.\<close>

fun to_string_loop :: "asset \<Rightarrow> string list \<Rightarrow> string \<Rightarrow> string" where
  "to_string_loop self [] assets_str = assets_str"
| "to_string_loop self (serial_no # rest) assets_str =
     (let asset_str = name self @ '','' @ category self @ '','' @ location self @ '','' @ date self;
          asset_str = asset_str @ '','' @ price self @ '','' @ model self @ '','' @ model_no self;
          asset_str = asset_str @ '','' @ serial_no @ '','' @ order_no self @ '','' @ requestable self;
          asset_str = asset_str @ '','' @ last_audit_date self @ [CHR 0x0A]
      in to_string_loop self rest (assets_str @ asset_str))"

definition to_string :: "asset \<Rightarrow> string" where
  "to_string self = to_string_loop self (serial_nos self) []"

subsection \<open>\<open>parse_pdf\<close>\<close>

text \<open>
  The whole of \<open>parse_pdf\<close>. Note the call on line 155, \<open>get_category(model_no, model, name)\<close>,
  against the parameters \<open>(model_no, name, model)\<close> of \<open>get_category\<close>.
\<close>

definition parse_pdf :: "string \<Rightarrow> io \<Rightarrow> error + (asset \<times> io)" where
  "parse_pdf page_text s =
     bind (extract_fields (locate_item page_text)) (\<lambda>(model_no, name, model, price, serial_nos).
     bind (get_next_item page_text ''BCB Homes'') (\<lambda>date.
     bind (normalize_date date) (\<lambda>date.
     bind (get_next_item page_text ''Service Request Number'') (\<lambda>order_no.
     bind (get_category model_no model name s) (\<lambda>(category, s).
     Inr (Asset model_no name model price serial_nos date order_no category, s))))))"

section \<open>Facts about the string operations\<close>

lemma find_str_found_iff: "0 \<le> find_str s sub \<longleftrightarrow> sublist sub s"
  by (induction s) (auto simp: sublist_Cons_right Let_def)

lemma find_str_absent: "\<not> sublist sub s \<Longrightarrow> find_str s sub = - 1"
  by (induction s) (auto simp: sublist_Cons_right Let_def)

lemma split_from_char_absent: "c \<notin> set x \<Longrightarrow> split_from [c] cur x = [cur @ x]"
  by (induction x arbitrary: cur) auto

lemma split_from_char_first:
  "c \<notin> set x \<Longrightarrow> split_from [c] cur (x @ c # rest) = (cur @ x) # split_from [c] [] rest"
  by (induction x arbitrary: cur) auto

lemma replace_char_absent: "c \<notin> set s \<Longrightarrow> replace_str s [c] new = s"
  by (induction s) auto

lemma replace_char_first:
  "c \<notin> set x \<Longrightarrow> replace_str (x @ c # rest) [c] new = x @ new @ replace_str rest [c] new"
  by (induction x) auto

lemma replace_char_other:
  "c \<notin> set x \<Longrightarrow> s \<noteq> c \<Longrightarrow> replace_str (x @ s # rest) [c] new = x @ s # replace_str rest [c] new"
  by (induction x) auto

lemma replace_char_delete: "replace_str s [c] [] = filter (\<lambda>x. x \<noteq> c) s"
  by (induction s) auto

lemma rstrip_Cons:
  assumes "\<not> isspace a"
  shows "rstrip (a # u) = a # rstrip u"
proof (cases "\<forall>x\<in>set u. isspace x")
  case True
  then have "dropWhile isspace (rev u) = []" by simp
  moreover from True have "dropWhile isspace (rev u @ [a]) = dropWhile isspace [a]"
    by (intro dropWhile_append2) simp
  ultimately show ?thesis using assms by (simp add: rstrip_def)
next
  case False
  then obtain x where "x \<in> set (rev u)" "\<not> isspace x" by auto
  then have "dropWhile isspace (rev u @ [a]) = dropWhile isspace (rev u) @ [a]"
    by (rule dropWhile_append1)
  then show ?thesis by (simp add: rstrip_def)
qed

lemma lstrip_rstrip_lstrip: "lstrip (rstrip (lstrip s)) = rstrip (lstrip s)"
proof (cases "lstrip s")
  case Nil
  show ?thesis unfolding Nil by (simp add: rstrip_def lstrip_def)
next
  case (Cons a u)
  then have "\<not> isspace a"
    unfolding lstrip_def by (metis hd_dropWhile list.sel(1) list.simps(3))
  then show ?thesis using Cons by (simp add: rstrip_Cons) (simp add: lstrip_def)
qed

lemma rstrip_idem: "rstrip (rstrip s) = rstrip s"
  by (simp add: rstrip_def)

lemma strip_idem: "strip (strip s) = strip s"
  by (simp add: strip_def lstrip_rstrip_lstrip rstrip_idem)

lemma set_strip: "set (strip s) \<subseteq> set s"
  unfolding strip_def rstrip_def lstrip_def
  by (metis set_dropWhileD set_rev subsetI)


section \<open>Facts about the program\<close>

lemma split_from_lines:
  "\<forall>r \<in> set rs. c \<notin> set r \<Longrightarrow> split_from [c] [] (concat (map (\<lambda>r. r @ [c]) rs)) = rs @ [[]]"
  by (induction rs) (simp_all add: split_from_char_first)

lemma foldl_append_concat: "foldl (@) x xs = x @ concat xs"
  by (induction xs arbitrary: x) simp_all

lemma to_string_loop_lines:
  "to_string_loop a ss acc =
     acc @ concat (map (\<lambda>s. name a @ '','' @ category a @ '','' @ location a @ '','' @ date a
       @ '','' @ price a @ '','' @ model a @ '','' @ model_no a
       @ '','' @ s @ '','' @ order_no a @ '','' @ requestable a @ '','' @ last_audit_date a
       @ [CHR 0x0A]) ss)"
  by (induction ss arbitrary: acc) (simp_all add: Let_def)

lemma get_category_unknown:
  assumes "check_for_common_categories nm = None"
  shows "get_category mno nm mdl s =
           (case stdin s of [] \<Rightarrow> Inl EOFError
            | answer # rest \<Rightarrow>
                Inr (capitalize answer,
                     s\<lparr>stdin := rest,
                       stdout := stdout s @ [CHR 0x0A # ''Model Number: '' @ mno @ [CHR 0x0A],
                                             ''Model: '' @ mdl @ [CHR 0x0A],
                                             ''Name: '' @ nm @ [CHR 0x0A],
                                             ''What is the category for this item? '']\<rparr>))"
  using assms
  by (simp add: get_category_def print_py_def input_py_def bind_def split: list.splits)

lemma extract_fields_tokens:
  assumes "index (split_str item '': '') 1 = Inr info"
  shows "extract_fields item =
           bind (reduce_add (token_segments info)) (\<lambda>toks.
           bind (pop1 toks) (\<lambda>(quantity, toks).
           bind (pop1 toks) (\<lambda>(p, toks).
           bind (pop1 toks) (\<lambda>(total, toks).
           bind (index toks 0) (\<lambda>first.
           bind (index (split_str first '', '') 0) (\<lambda>m.
           bind (index (split_str item '': '') (length (split_str item '': '') - 1)) (\<lambda>serials.
             Inr (hd (split_str item '': ''), replace_str (join_str '' '' toks) '','' [], m,
                  normalize_price p, map strip (split_str serials '','')))))))))"
proof -
  from assms have "1 < length (split_str item '': '')"
    by (simp add: index_def split: if_splits)
  then have "index (split_str item '': '') 0 = Inr (hd (split_str item '': ''))"
    by (cases "split_str item '': ''") (simp_all add: index_def)
  then show ?thesis
    using assms by (simp add: extract_fields_def bind_def Let_def)
qed

lemmas case_defs = lower_def lower_char_def upper_char_def ascii_uppercase_def ascii_lowercase_def
  capitalize_def

lemmas strip_defs = strip_def lstrip_def rstrip_def isspace_def

section \<open>Price normalization\<close>

text \<open>
  Claim C9. Normalizing a unit price (lines 134 to 136: every comma and every dollar sign
  removed, surrounding white space stripped) is idempotent: normalizing a normalized price
  gives the same string. A price with no comma and no dollar sign only loses its surrounding
  white space, so one that has none passes through unchanged.
\<close>

theorem normalize_price_idempotent:
  "normalize_price (normalize_price p) = normalize_price p
   \<and> (CHR '','' \<notin> set p \<and> CHR ''$'' \<notin> set p \<longrightarrow> normalize_price p = strip p)
   \<and> (CHR '','' \<notin> set p \<and> CHR ''$'' \<notin> set p \<and> strip p = p \<longrightarrow> normalize_price p = p)"
proof -
  let ?q = "filter (\<lambda>x. x \<noteq> CHR ''$'') (filter (\<lambda>x. x \<noteq> CHR '','') p)"
  have norm: "normalize_price s = strip (filter (\<lambda>x. x \<noteq> CHR ''$'') (filter (\<lambda>x. x \<noteq> CHR '','') s))" for s
    by (simp add: normalize_price_def replace_char_delete)
  have "CHR '','' \<notin> set (strip ?q)" "CHR ''$'' \<notin> set (strip ?q)"
    using set_strip [of ?q] by auto
  then have "filter (\<lambda>x. x \<noteq> CHR ''$'') (filter (\<lambda>x. x \<noteq> CHR '','') (strip ?q)) = strip ?q"
    by (auto simp: filter_id_conv)
  then have idem: "normalize_price (normalize_price p) = normalize_price p"
    by (simp add: norm strip_idem)
  have clean: "normalize_price p = strip p" if "CHR '','' \<notin> set p" "CHR ''$'' \<notin> set p"
    using that by (simp add: normalize_price_def replace_char_absent)
  from idem clean show ?thesis by simp
qed

theorem normalize_price_idempotent_witness:
  "CHR '','' \<notin> set ''500.00'' \<and> CHR ''$'' \<notin> set ''500.00'' \<and> strip ''500.00'' = ''500.00''
   \<and> normalize_price ''500.00'' = ''500.00''
   \<and> normalize_price ''$1,000.00 '' = ''1000.00''
   \<and> normalize_price (normalize_price ''$1,000.00 '') = ''1000.00''"
proof -
  have h: "CHR '','' \<notin> set ''500.00'' \<and> CHR ''$'' \<notin> set ''500.00'' \<and> strip ''500.00'' = ''500.00''"
    by (simp add: strip_def lstrip_def rstrip_def isspace_def)
  have v: "normalize_price ''$1,000.00 '' = ''1000.00''"
    by (simp add: normalize_price_def strip_def lstrip_def rstrip_def isspace_def)
  from h v normalize_price_idempotent [of "''500.00''"] normalize_price_idempotent [of "''$1,000.00 ''"]
  show ?thesis by metis
qed

section \<open>Known categories\<close>



section \<open>Field extraction on the example block\<close>

lemmas extract_defs = extract_fields_def bind_def index_def split_str_def token_segments_def
  slice_to_def slice_from_def slice_def slice_bound_def splitlines_def is_linebreak_def
  reduce_add_def pop1_def normalize_price_def Let_def

lemmas parse_defs = parse_pdf_def locate_item_def START_STRING_def END_STRING_def get_next_item_def
  normalize_date_def get_category_def check_for_common_categories_def COMMON_CATEGORIES_def
  input_py_def print_py_def Asset_def



section \<open>The field looked up for a known category\<close>

text \<open>
  Claim C3 says that the known categories are looked for in the item name. On a page whose
  item name is \<open>Dell Latitude Laptop\<close> and whose model is \<open>Dell\<close>, \<open>parse_pdf\<close> looks for
  them in the model: it finds none, shows the operator the name under ``Model:'' and the
  model under ``Name:'', reads the answer and stores it capitalized, although the name
  contains Laptop.
\<close>

theorem parse_pdf_category_from_model:
  "parse_pdf ''BCB Homes 03/14/2024 Service Request Number 5 Billable  Products & Other Charges A: Dell, Latitude Laptop  1  $2  $2  Serial: S Total''
     \<lparr>stdin = [''other''], stdout = []\<rparr>
   = Inr (\<lparr>model_no = ''A'', name = ''Dell Latitude Laptop'', model = ''Dell'',
           price = ''2'', serial_nos = [''S''], location = ''Naples Office'',
           date = ''2024-03-14'', order_no = ''5'', category = ''Other'',
           requestable = ''true'', last_audit_date = ''2024-03-14''\<rparr>,
          \<lparr>stdin = [],
           stdout = [CHR 0x0A # ''Model Number: A'' @ [CHR 0x0A],
                     ''Model: Dell Latitude Laptop'' @ [CHR 0x0A],
                     ''Name: Dell'' @ [CHR 0x0A],
                     ''What is the category for this item? '']\<rparr>)"
  by (simp add: parse_defs extract_defs strip_defs case_defs)

section \<open>Date normalization\<close>

text \<open>
  Claim C8. A date of two digits, a separator, two digits, a separator and four digits, each
  separator a slash or a hyphen, is normalized to the four digits, a hyphen, the first two
  digits, a hyphen and the other two: \<open>03/14/2024\<close> and \<open>03-14-2024\<close> both become
  \<open>2024-03-14\<close>.
\<close>

theorem normalize_date_mdy:
  assumes "length mm = 2" and "length dd = 2" and "length yyyy = 4"
    and "\<forall>c \<in> set (mm @ dd @ yyyy). c \<in> set ''0123456789''"
    and "s1 \<in> {CHR ''/'', CHR ''-''}" and "s2 \<in> {CHR ''/'', CHR ''-''}"
  shows "normalize_date (mm @ [s1] @ dd @ [s2] @ yyyy) = Inr (yyyy @ ''-'' @ mm @ ''-'' @ dd)"
proof -
  have nslash: "CHR ''/'' \<notin> set mm" "CHR ''/'' \<notin> set dd" "CHR ''/'' \<notin> set yyyy"
    using assms(4) by auto
  obtain m1 m2 where mm: "mm = [m1, m2]"
    using assms(1) by (auto simp: length_Suc_conv numeral_2_eq_2)
  obtain d1 d2 where dd: "dd = [d1, d2]"
    using assms(2) by (auto simp: length_Suc_conv numeral_2_eq_2)
  have sep: "replace_str (x @ s # rest) ''/'' ''-'' = x @ CHR ''-'' # replace_str rest ''/'' ''-''"
    if "CHR ''/'' \<notin> set x" "s \<in> {CHR ''/'', CHR ''-''}" for x s rest
  proof (cases "s = CHR ''/''")
    case True
    then show ?thesis using that(1) by (simp add: replace_char_first)
  next
    case False
    then have "s = CHR ''-''" using that(2) by simp
    then show ?thesis using that(1) by (simp add: replace_char_other)
  qed
  have "replace_str (mm @ s1 # dd @ s2 # yyyy) ''/'' ''-''
          = mm @ CHR ''-'' # replace_str (dd @ s2 # yyyy) ''/'' ''-''"
    by (rule sep [OF nslash(1) assms(5)])
  also have "replace_str (dd @ s2 # yyyy) ''/'' ''-'' = dd @ CHR ''-'' # replace_str yyyy ''/'' ''-''"
    by (rule sep [OF nslash(2) assms(6)])
  also have "replace_str yyyy ''/'' ''-'' = yyyy"
    by (rule replace_char_absent [OF nslash(3)])
  finally show ?thesis
    using assms(3)
    by (simp add: normalize_date_def mm dd bind_def index_def slice_from_def slice_to_def
        slice_bound_def)
qed

theorem normalize_date_mdy_witness:
  "normalize_date ''03/14/2024'' = Inr ''2024-03-14''
   \<and> normalize_date ''03-14-2024'' = Inr ''2024-03-14''"
proof -
  have d: "length ''03'' = 2" "length ''14'' = 2" "length ''2024'' = 4"
    "\<forall>c \<in> set (''03'' @ ''14'' @ ''2024''). c \<in> set ''0123456789''"
    by simp_all
  have "normalize_date (''03'' @ [CHR ''/''] @ ''14'' @ [CHR ''/''] @ ''2024'')
          = Inr (''2024'' @ ''-'' @ ''03'' @ ''-'' @ ''14'')"
    by (rule normalize_date_mdy [OF d]) simp_all
  moreover have "normalize_date (''03'' @ [CHR ''-''] @ ''14'' @ [CHR ''-''] @ ''2024'')
          = Inr (''2024'' @ ''-'' @ ''03'' @ ''-'' @ ''14'')"
    by (rule normalize_date_mdy [OF d]) simp_all
  ultimately show ?thesis by simp
qed

section \<open>The item block when an anchor is missing\<close>

text \<open>
  Claim C1, as stated: on a page without the START anchor the locator fails with an
  AnchorNotFound error and returns no slice derived from the position of the failed search.
  The page below has no START anchor; \<open>locate_item\<close> returns the block that starts at
  index 33 (the failed search's -1 plus the 34 characters of the anchor), in the middle of a
  word, and \<open>parse_pdf\<close> builds an asset from it without raising anything.
\<close>

theorem parse_pdf_missing_start_counterexample:
  "\<not> sublist START_STRING ''BCB Homes 03/14/2024 Service Request Number 5 A: Laptop  1  $2  $2  Serial: S Total''
   \<and> locate_item ''BCB Homes 03/14/2024 Service Request Number 5 A: Laptop  1  $2  $2  Serial: S Total''
       = ''est Number 5 A: Laptop  1  $2  $2  Serial: S''
   \<and> parse_pdf ''BCB Homes 03/14/2024 Service Request Number 5 A: Laptop  1  $2  $2  Serial: S Total''
         \<lparr>stdin = [], stdout = []\<rparr>
       = Inr (\<lparr>model_no = ''est Number 5 A'', name = ''Laptop'', model = ''Laptop'',
               price = ''2'', serial_nos = [''S''], location = ''Naples Office'',
               date = ''2024-03-14'', order_no = ''5'', category = ''Laptop'',
               requestable = ''true'', last_audit_date = ''2024-03-14''\<rparr>,
              \<lparr>stdin = [], stdout = []\<rparr>)"
  by (simp add: find_str_found_iff [symmetric] parse_defs extract_defs strip_defs case_defs)

text \<open>
  Claim C1, amended. The locator never fails (its result is a string, and no exception of
  the program stands for a missing anchor). When the START anchor is absent, the block is the
  stripped slice \<open>page_text[33:end_i]\<close>; when the END anchor is absent, it is the stripped
  slice \<open>page_text[start_i:-1]\<close>, which stops before the last character of the page.
\<close>

theorem locate_item_missing_anchor:
  "(\<not> sublist START_STRING t \<longrightarrow> locate_item t = strip (slice t 33 (find_str t END_STRING)))
   \<and> (\<not> sublist END_STRING t \<longrightarrow>
        locate_item t = strip (slice t (find_str t START_STRING + 34) (- 1)))"
proof -
  have "length START_STRING = 34" by (simp add: START_STRING_def)
  then show ?thesis
    by (auto simp: locate_item_def find_str_absent)
qed

theorem locate_item_missing_anchor_witness:
  "\<not> sublist START_STRING ''Invoice 7 BCB Homes 03/14/2024 ABC X1: Dell Laptop  2  $500.00  Total''
   \<and> locate_item ''Invoice 7 BCB Homes 03/14/2024 ABC X1: Dell Laptop  2  $500.00  Total''
       = ''C X1: Dell Laptop  2  $500.00''
   \<and> \<not> sublist END_STRING ''Billable  Products & Other Charges X1: Dell Laptop  2  $500.00 ''
   \<and> locate_item ''Billable  Products & Other Charges X1: Dell Laptop  2  $500.00 ''
       = ''X1: Dell Laptop  2  $500.00''"
proof -
  have a: "\<not> sublist START_STRING ''Invoice 7 BCB Homes 03/14/2024 ABC X1: Dell Laptop  2  $500.00  Total''"
    by (simp add: find_str_found_iff [symmetric] START_STRING_def)
  have b: "\<not> sublist END_STRING ''Billable  Products & Other Charges X1: Dell Laptop  2  $500.00 ''"
    by (simp add: find_str_found_iff [symmetric] END_STRING_def)
  from a b
    locate_item_missing_anchor [of "''Invoice 7 BCB Homes 03/14/2024 ABC X1: Dell Laptop  2  $500.00  Total''"]
    locate_item_missing_anchor [of "''Billable  Products & Other Charges X1: Dell Laptop  2  $500.00 ''"]
  show ?thesis
    by (simp add: START_STRING_def END_STRING_def slice_def slice_bound_def strip_defs)
qed

section \<open>Item blocks with too few tokens\<close>

text \<open>
  Claim C4, as stated: a block that yields fewer than 3 tokens fails with a
  MalformedItemBlock error and not with an unrelated exception. The block below yields the
  two tokens \<open>x\<close> and \<open>y\<close>; the second \<open>pop(1)\<close> raises IndexError.
\<close>

theorem extract_fields_short_block_counterexample:
  "concat (token_segments ''x  y Serial'') = [''x'', ''y '']
   \<and> extract_fields ''MN-100: x  y Serial: S'' = Inl IndexError"
  by (simp add: extract_defs strip_defs)

text \<open>
  Claim C4, amended. For every item block with a \<open>: \<close> in it that yields fewer than 4
  tokens (so also fewer than 3), extraction fails and returns no fields: with TypeError when
  no piece is left for \<open>reduce\<close>, with IndexError (``pop index out of range'') otherwise.
\<close>

theorem extract_fields_too_few_tokens:
  assumes "index (split_str item '': '') 1 = Inr info"
    and "length (concat (token_segments info)) < 4"
  shows "extract_fields item = Inl (if token_segments info = [] then TypeError else IndexError)"
proof (cases "token_segments info")
  case Nil
  then show ?thesis
    by (simp add: extract_fields_tokens [OF assms(1)] reduce_add_def bind_def)
next
  case (Cons seg segs)
  then have ne: "token_segments info \<noteq> []" by simp
  define toks where "toks = concat (token_segments info)"
  have r: "reduce_add (token_segments info) = Inr toks"
    by (simp add: Cons reduce_add_def foldl_append_concat toks_def)
  have "length toks < 4" using assms(2) by (simp add: toks_def)
  then consider "toks = []" | a where "toks = [a]" | a b where "toks = [a, b]"
    | a b c where "toks = [a, b, c]"
    by (cases toks rule: list.exhaust; simp; metis length_0_conv length_Suc_conv less_Suc_eq_0_disj not_less_eq numeral_3_eq_3)
  then show ?thesis
    by cases (simp_all add: extract_fields_tokens [OF assms(1)] r ne pop1_def bind_def)
qed

theorem extract_fields_too_few_tokens_witness:
  "index (split_str ''MN-100: x  y Serial: S'' '': '') 1 = Inr ''x  y Serial''
   \<and> concat (token_segments ''x  y Serial'') = [''x'', ''y '']
   \<and> extract_fields ''MN-100: x  y Serial: S'' = Inl IndexError
   \<and> index (split_str ''MN-100: Serial: S'' '': '') 1 = Inr ''Serial''
   \<and> token_segments ''Serial'' = []
   \<and> extract_fields ''MN-100: Serial: S'' = Inl TypeError"
proof -
  have a: "index (split_str ''MN-100: x  y Serial: S'' '': '') 1 = Inr ''x  y Serial''"
    by (simp add: index_def split_str_def)
  have b: "concat (token_segments ''x  y Serial'') = [''x'', ''y '']"
    by (simp add: token_segments_def split_str_def slice_to_def slice_bound_def splitlines_def
        is_linebreak_def)
  then have b': "length (concat (token_segments ''x  y Serial'')) < 4" by simp
  have c: "index (split_str ''MN-100: Serial: S'' '': '') 1 = Inr ''Serial''"
    by (simp add: index_def split_str_def)
  have d: "token_segments ''Serial'' = []"
    by (simp add: token_segments_def split_str_def slice_to_def slice_bound_def)
  then have d': "length (concat (token_segments ''Serial'')) < 4" by simp
  from b have e: "token_segments ''x  y Serial'' \<noteq> []" by auto
  from extract_fields_too_few_tokens [OF a b'] extract_fields_too_few_tokens [OF c d'] a b c d e
  show ?thesis by simp
qed

section \<open>The answer of the operator\<close>

text \<open>
  Claim C5, as stated: when no known category matches, classification fails if and only if
  the answer is empty, and the stored category is never empty. With the empty answer,
  \<open>get_category\<close> returns the empty category.
\<close>

theorem get_category_empty_answer_counterexample:
  "check_for_common_categories ''Dell'' = None
   \<and> get_category ''X1'' ''Dell'' ''Dell Latitude'' \<lparr>stdin = [''''], stdout = []\<rparr>
     = Inr ('''', \<lparr>stdin = [],
                  stdout = [CHR 0x0A # ''Model Number: X1'' @ [CHR 0x0A],
                            ''Model: Dell Latitude'' @ [CHR 0x0A],
                            ''Name: Dell'' @ [CHR 0x0A],
                            ''What is the category for this item? '']\<rparr>)"
  by (simp add: get_category_def check_for_common_categories_def COMMON_CATEGORIES_def case_defs
      print_py_def input_py_def bind_def)

text \<open>
  Claim C5, amended. When no known category matches, \<open>get_category\<close> accepts every
  answer: the category is the capitalized answer, which is empty exactly when the answer is
  empty. It fails only with EOFError, when there is no answer to read.
\<close>

theorem get_category_never_rejects:
  assumes "check_for_common_categories nm = None"
  shows "(stdin s = answer # rest \<longrightarrow>
            (\<exists>s'. get_category mno nm mdl s = Inr (capitalize answer, s'))
            \<and> (capitalize answer = [] \<longleftrightarrow> answer = []))
         \<and> (stdin s = [] \<longrightarrow> get_category mno nm mdl s = Inl EOFError)"
  using assms by (auto simp: get_category_unknown capitalize_def split: list.splits)

theorem get_category_never_rejects_witness:
  "check_for_common_categories ''Dell'' = None
   \<and> (\<exists>s'. get_category ''X1'' ''Dell'' ''Dell Latitude'' \<lparr>stdin = ['''', ''laptop''], stdout = []\<rparr>
              = Inr ('''', s'))
   \<and> get_category ''X1'' ''Dell'' ''Dell Latitude'' \<lparr>stdin = [], stdout = []\<rparr> = Inl EOFError"
proof -
  have h: "check_for_common_categories ''Dell'' = None"
    by (simp add: check_for_common_categories_def COMMON_CATEGORIES_def case_defs)
  from get_category_never_rejects [OF h, of "\<lparr>stdin = ['''', ''laptop''], stdout = []\<rparr>" "''''" "[''laptop'']" "''X1''" "''Dell Latitude''"]
    get_category_never_rejects [OF h, of "\<lparr>stdin = [], stdout = []\<rparr>" "''''" "[]" "''X1''" "''Dell Latitude''"] h
  show ?thesis by (simp add: capitalize_def)
qed



section \<open>The rows of an asset\<close>

text \<open>
  Claim C7. For an asset none of whose fields and serial numbers contains a comma or a
  newline, the text of \<open>to_string\<close> consists of one line per entry of \<open>serial_nos\<close>
  (duplicates included), each closed by a newline, and cutting a line at its commas gives
  exactly the 11 fields name, category, location, date, price, model, model number, serial
  number, order number, requestable, last audit date, in this order, the serial number being
  the only field that changes from line to line.
\<close>

theorem to_string_rows:
  assumes "\<forall>f \<in> set [name a, category a, location a, date a, price a, model a, model_no a,
                        order_no a, requestable a, last_audit_date a] \<union> set (serial_nos a).
             CHR '','' \<notin> set f \<and> CHR 0x0A \<notin> set f"
  shows "length (butlast (split_str (to_string a) [CHR 0x0A])) = length (serial_nos a)
         \<and> last (split_str (to_string a) [CHR 0x0A]) = []
         \<and> map (\<lambda>row. split_str row '','') (butlast (split_str (to_string a) [CHR 0x0A]))
             = map (\<lambda>serial_no. [name a, category a, location a, date a, price a, model a,
                                   model_no a, serial_no, order_no a, requestable a,
                                   last_audit_date a]) (serial_nos a)"
proof -
  define line where "line = (\<lambda>s. name a @ '','' @ category a @ '','' @ location a @ '','' @ date a
     @ '','' @ price a @ '','' @ model a @ '','' @ model_no a
     @ '','' @ s @ '','' @ order_no a @ '','' @ requestable a @ '','' @ last_audit_date a)"
  have nc: "CHR '','' \<notin> set (name a)" "CHR '','' \<notin> set (category a)" "CHR '','' \<notin> set (location a)"
    "CHR '','' \<notin> set (date a)" "CHR '','' \<notin> set (price a)" "CHR '','' \<notin> set (model a)"
    "CHR '','' \<notin> set (model_no a)" "CHR '','' \<notin> set (order_no a)"
    "CHR '','' \<notin> set (requestable a)" "CHR '','' \<notin> set (last_audit_date a)"
    using assms by simp_all
  have nn: "CHR 0x0A \<notin> set (name a)" "CHR 0x0A \<notin> set (category a)" "CHR 0x0A \<notin> set (location a)"
    "CHR 0x0A \<notin> set (date a)" "CHR 0x0A \<notin> set (price a)" "CHR 0x0A \<notin> set (model a)"
    "CHR 0x0A \<notin> set (model_no a)" "CHR 0x0A \<notin> set (order_no a)"
    "CHR 0x0A \<notin> set (requestable a)" "CHR 0x0A \<notin> set (last_audit_date a)"
    using assms by simp_all
  have ser: "CHR '','' \<notin> set s \<and> CHR 0x0A \<notin> set s" if "s \<in> set (serial_nos a)" for s
    using assms that by simp
  have line_nl: "CHR 0x0A \<notin> set (line s)" if "s \<in> set (serial_nos a)" for s
    using ser [OF that] nn by (simp add: line_def)
  have fields: "split_str (line s) '','' =
      [name a, category a, location a, date a, price a, model a, model_no a, s, order_no a,
       requestable a, last_audit_date a]" if "s \<in> set (serial_nos a)" for s
    using ser [OF that] nc
    by (simp add: line_def split_str_def split_from_char_first split_from_char_absent)
  have "to_string a = concat (map (\<lambda>r. r @ [CHR 0x0A]) (map line (serial_nos a)))"
    by (simp add: to_string_def to_string_loop_lines comp_def line_def)
  moreover have "\<forall>r \<in> set (map line (serial_nos a)). CHR 0x0A \<notin> set r"
    using line_nl by auto
  ultimately have rows: "split_str (to_string a) [CHR 0x0A] = map line (serial_nos a) @ [[]]"
    by (simp only: split_str_def split_from_lines)
  show ?thesis
    by (simp add: rows fields cong: map_cong)
qed

theorem to_string_rows_witness:
  "split_str (to_string (Asset ''M1'' ''PC'' ''Mo'' ''5'' [''S1'', ''S1''] ''D'' ''7'' ''Cat''))
             [CHR 0x0A]
     = [''PC,Cat,Naples Office,D,5,Mo,M1,S1,7,true,D'',
        ''PC,Cat,Naples Office,D,5,Mo,M1,S1,7,true,D'', '''']
   \<and> map (\<lambda>row. split_str row '','')
         (butlast (split_str (to_string (Asset ''M1'' ''PC'' ''Mo'' ''5'' [''S1'', ''S1''] ''D'' ''7''
                                           ''Cat'')) [CHR 0x0A]))
     = [[''PC'', ''Cat'', ''Naples Office'', ''D'', ''5'', ''Mo'', ''M1'', ''S1'', ''7'', ''true'', ''D''],
        [''PC'', ''Cat'', ''Naples Office'', ''D'', ''5'', ''Mo'', ''M1'', ''S1'', ''7'', ''true'', ''D'']]"
proof -
  let ?a = "Asset ''M1'' ''PC'' ''Mo'' ''5'' [''S1'', ''S1''] ''D'' ''7'' ''Cat''"
  have h: "\<forall>f \<in> set [name ?a, category ?a, location ?a, date ?a, price ?a, model ?a, model_no ?a,
                        order_no ?a, requestable ?a, last_audit_date ?a] \<union> set (serial_nos ?a).
             CHR '','' \<notin> set f \<and> CHR 0x0A \<notin> set f"
    by (simp add: Asset_def)
  have v: "split_str (to_string ?a) [CHR 0x0A]
     = [''PC,Cat,Naples Office,D,5,Mo,M1,S1,7,true,D'',
        ''PC,Cat,Naples Office,D,5,Mo,M1,S1,7,true,D'', '''']"
    by (simp add: to_string_def Asset_def split_str_def Let_def)
  from to_string_rows [OF h] have
    "map (\<lambda>row. split_str row '','') (butlast (split_str (to_string ?a) [CHR 0x0A]))
      = map (\<lambda>serial_no. [name ?a, category ?a, location ?a, date ?a, price ?a, model ?a,
                            model_no ?a, serial_no, order_no ?a, requestable ?a,
                            last_audit_date ?a]) (serial_nos ?a)"
    by blast
  also have "\<dots> =
       [[''PC'', ''Cat'', ''Naples Office'', ''D'', ''5'', ''Mo'', ''M1'', ''S1'', ''7'', ''true'', ''D''],
        [''PC'', ''Cat'', ''Naples Office'', ''D'', ''5'', ''Mo'', ''M1'', ''S1'', ''7'', ''true'', ''D'']]"
    by (simp add: Asset_def)
  finally show ?thesis using v by blast
qed

end
